theory Spec2Isabelle
  imports Main
begin

section \<open>Python strings and the library functions the code calls\<close>

text \<open>
  A Python \<open>str\<close> is a sequence of Unicode code points and \<open>len\<close> counts code points,
  so a string is modelled as the list of its code points. The literals of the source
  that are not ASCII (emoji, Chinese text) are written as their code point lists.
\<close>

type_synonym pystr = "nat list"

definition ascii :: "string \<Rightarrow> pystr" where
  "ascii s = map of_char s"

text \<open>
  \<open>str.lower\<close>, \<open>str.upper\<close> and \<open>pathlib.Path(p).name\<close> belong to the Python
  library, not to the repository: they depend on the Unicode case tables and on the path
  flavour of the platform. The model takes them as a parameter.
\<close>

record pylib =
  str_lower :: "pystr \<Rightarrow> pystr"
  str_upper :: "pystr \<Rightarrow> pystr"
  path_name :: "pystr \<Rightarrow> pystr"

text \<open>\<open>s.split(sep)\<close> for a separator of one code point.\<close>

fun split_on :: "nat \<Rightarrow> pystr \<Rightarrow> pystr list" where
  "split_on sep [] = [[]]"
| "split_on sep (c # s) =
     (if c = sep then [] # split_on sep s
      else (case split_on sep s of [] \<Rightarrow> [[c]] | x # xs \<Rightarrow> (c # x) # xs))"

text \<open>
  The library restricted to ASCII letters and POSIX paths, for concrete runs: the name
  of a POSIX path is its last component that is neither empty nor a single dot.
\<close>

definition ascii_lower :: "pystr \<Rightarrow> pystr" where
  "ascii_lower s = map (\<lambda>c. if 65 \<le> c \<and> c \<le> 90 then c + 32 else c) s"

definition ascii_upper :: "pystr \<Rightarrow> pystr" where
  "ascii_upper s = map (\<lambda>c. if 97 \<le> c \<and> c \<le> 122 then c - 32 else c) s"

definition posix_name :: "pystr \<Rightarrow> pystr" where
  "posix_name p =
     (case rev (filter (\<lambda>c. c \<noteq> [] \<and> c \<noteq> [46]) (split_on 47 p)) of
        [] \<Rightarrow> [] | n # _ \<Rightarrow> n)"

definition ascii_lib :: pylib where
  "ascii_lib = \<lparr>str_lower = ascii_lower, str_upper = ascii_upper, path_name = posix_name\<rparr>"

text \<open>\<open>s.endswith(t)\<close>, \<open>s.startswith(t)\<close>, \<open>t in s\<close>, \<open>sep.join(xs)\<close>.\<close>

definition endswith :: "pystr \<Rightarrow> pystr \<Rightarrow> bool" where
  "endswith s t = (length t \<le> length s \<and> drop (length s - length t) s = t)"

definition startswith :: "pystr \<Rightarrow> pystr \<Rightarrow> bool" where
  "startswith s t = (take (length t) s = t)"

fun contains :: "pystr \<Rightarrow> pystr \<Rightarrow> bool" where
  "contains [] t = (t = [])"
| "contains (c # s) t = (take (length t) (c # s) = t \<or> contains s t)"

fun join :: "pystr \<Rightarrow> pystr list \<Rightarrow> pystr" where
  "join sep [] = []"
| "join sep [x] = x"
| "join sep (x # y # ys) = x @ sep @ join sep (y # ys)"

text \<open>\<open>s[:k]\<close>: a negative \<open>k\<close> counts from the end of the string.\<close>

definition slice_to :: "int \<Rightarrow> 'a list \<Rightarrow> 'a list" where
  "slice_to k s = (if 0 \<le> k then take (nat k) s else take (nat (int (length s) + k)) s)"

text \<open>The decimal text of a non-negative integer, as an f-string renders it.\<close>

fun str_of_nat :: "nat \<Rightarrow> pystr" where
  "str_of_nat n = (if n < 10 then [48 + n] else str_of_nat (n div 10) @ [48 + n mod 10])"

declare str_of_nat.simps [simp del]

section \<open>The texts of the source\<close>

text \<open>
  The messages of the two scripts are Chinese; each is given here as its code points,
  with an English rendering.
\<close>

definition fetch_failed :: pystr where \<comment> \<open>failed to get the remote state: \<close>
  "fetch_failed =
     [33719, 21462, 36828, 31243, 29366, 24577, 22833, 36133, 58, 32]"

definition unpushed_prefix :: pystr where \<comment> \<open>local branch \<close>
  "unpushed_prefix =
     [26412, 22320, 20998, 25903, 32]"

definition unpushed_suffix :: pystr where \<comment> \<open> has commits that are not pushed\<close>
  "unpushed_suffix =
     [32, 26377, 26410, 25512, 36865, 30340, 25552, 20132]"

definition merge_base_failed :: pystr where \<comment> \<open>cannot determine the merge base: \<close>
  "merge_base_failed =
     [26080, 27861, 30830, 23450, 21512, 24182, 22522, 30784, 58, 32]"

definition potential_conflict :: pystr where \<comment> \<open>potential conflict detected: \<close>
  "potential_conflict =
     [26816, 27979, 21040, 28508, 22312, 20914, 31361, 65306]"

definition no_conflict :: pystr where \<comment> \<open>no conflict\<close>
  "no_conflict =
     [26080, 20914, 31361]"

definition cannot_check :: pystr where \<comment> \<open>cannot check the conflict state\<close>
  "cannot_check =
     [26080, 27861, 26816, 26597, 20914, 31361, 29366, 24577]"

definition check_failed :: pystr where \<comment> \<open>exception in the conflict check: \<close>
  "check_failed =
     [20914, 31361, 26816, 26597, 24322, 24120, 58, 32]"

definition ready_to_commit :: pystr where \<comment> \<open>no conflict, ready to commit\<close>
  "ready_to_commit =
     [26080, 20914, 31361, 65292, 20934, 22791, 25552, 20132]"

definition merged :: pystr where \<comment> \<open>automatic merge succeeded\<close>
  "merged =
     [33258, 21160, 21512, 24182, 25104, 21151]"

definition resolved :: pystr where \<comment> \<open>merge conflict resolved automatically\<close>
  "resolved =
     [33258, 21160, 35299, 20915, 21512, 24182, 20914, 31361]"

definition resolve_manually :: pystr where \<comment> \<open>conflict handling failed, resolve by hand: \<close>
  "resolve_manually =
     [20914, 31361, 22788, 29702, 22833, 36133, 65292, 35831, 25163, 21160, 35299, 20915, 58, 32]"

definition handling_failed :: pystr where \<comment> \<open>exception in the conflict handling: \<close>
  "handling_failed =
     [20914, 31361, 22788, 29702, 24322, 24120, 58, 32]"

definition retries_exhausted :: pystr where \<comment> \<open>maximum number of retries reached\<close>
  "retries_exhausted =
     [36798, 21040, 26368, 22823, 37325, 35797, 27425, 25968]"

definition not_a_repository :: pystr where \<comment> \<open>the current directory is not a Git repository\<close>
  "not_a_repository =
     [24403, 21069, 30446, 24405, 19981, 26159, 71, 105, 116, 20179, 24211]"

definition status_failed :: pystr where \<comment> \<open>failed to get the Git status: \<close>
  "status_failed =
     [33719, 21462, 71, 105, 116, 29366, 24577, 22833, 36133, 58, 32]"

definition status_raised :: pystr where \<comment> \<open>exception while getting the Git status: \<close>
  "status_raised =
     [33719, 21462, 71, 105, 116, 29366, 24577, 24322, 24120, 58, 32]"

definition command_failed :: pystr where \<comment> \<open>the Git command failed: \<close>
  "command_failed =
     [71, 105, 116, 21629, 20196, 25191, 34892, 22833, 36133, 58, 32]"

definition auto_commit_prefix :: pystr where \<comment> \<open>automatic commit \<close>
  "auto_commit_prefix =
     [33258, 21160, 25552, 20132, 32]"

definition files_suffix :: pystr where \<comment> \<open> files\<close>
  "files_suffix =
     [32, 20010, 25991, 20214]"

definition one_file :: pystr where \<comment> \<open>1 file\<close>
  "one_file =
     [49, 32, 20010, 25991, 20214]"

definition and_more :: pystr where \<comment> \<open> and more\<close>
  "and_more =
     [32, 31561]"

definition default_prefix :: pystr where \<comment> \<open>change\<close>
  "default_prefix =
     [128260, 32, 21464, 26356]"

definition default_label :: pystr where \<comment> \<open>files\<close>
  "default_label =
     [25991, 20214]"

section \<open>Dictionaries with insertion order\<close>

text \<open>
  A \<open>dict\<close> keeps its keys in insertion order and \<open>max\<close> walks them in that order, so the
  dictionaries of the commit generator are association lists.
\<close>

type_synonym ('k, 'v) pydict = "('k \<times> 'v) list"

definition dict_get :: "('k, 'v) pydict \<Rightarrow> 'k \<Rightarrow> 'v \<Rightarrow> 'v" where
  "dict_get d k dflt = (case map_of d k of Some v \<Rightarrow> v | None \<Rightarrow> dflt)"

text \<open>\<open>d[k] += 1\<close> on a key that is present: the key keeps its place.\<close>

definition dict_incr :: "'k \<Rightarrow> ('k, nat) pydict \<Rightarrow> ('k, nat) pydict" where
  "dict_incr k d = map (\<lambda>(k', v). if k' = k then (k', v + 1) else (k', v)) d"

text \<open>
  \<open>max(xs, key=f)\<close>: the first element whose key is the largest; \<open>None\<close> stands for the
  \<open>ValueError\<close> on an empty sequence.
\<close>

definition py_max :: "('a \<Rightarrow> nat) \<Rightarrow> 'a list \<Rightarrow> 'a option" where
  "py_max f xs = (case xs of [] \<Rightarrow> None
     | x # ys \<Rightarrow> Some (foldl (\<lambda>best y. if f best < f y then y else best) x ys))"

section \<open>IntelligentCommitGenerator\<close>

text \<open>
  The two keys that \<open>generate_commit_message\<close> reads with \<open>config.get\<close>; \<open>None\<close> is
  a key that is absent. The parameters \<open>branch\<close> and \<open>context\<close> of the function are
  not used in its body and are left out.
\<close>

record gen_config =
  include_timestamp :: "bool option"
  max_message_length :: "int option"

definition code_exts :: "string list" where
  "code_exts = [''.py'', ''.js'', ''.ts'', ''.jsx'', ''.tsx'', ''.go'', ''.rs'', ''.java'',
     ''.cpp'', ''.c'', ''.h'']"

definition config_exts :: "string list" where
  "config_exts = [''.json'', ''.yml'', ''.yaml'', ''.toml'', ''.ini'', ''.cfg'']"

definition docs_exts :: "string list" where
  "docs_exts = [''.md'', ''.txt'', ''.rst'', ''.doc'', ''.docx'']"

definition style_exts :: "string list" where
  "style_exts = [''.css'', ''.scss'', ''.less'', ''.sass'']"

definition any_endswith :: "pystr \<Rightarrow> string list \<Rightarrow> bool" where
  "any_endswith s exts = list_ex (\<lambda>ext. endswith s (ascii ext)) exts"

text \<open>The branch of the \<open>if\<close>/\<open>elif\<close> chain of \<open>_categorize_files\<close> that one file takes.\<close>

definition category_of :: "pylib \<Rightarrow> pystr \<Rightarrow> string" where
  "category_of L file_path =
     (let file_lower = str_lower L file_path;
          file_name = str_lower L (path_name L file_path)
      in if any_endswith file_lower code_exts then ''code''
         else if any_endswith file_lower config_exts then ''config''
         else if any_endswith file_lower docs_exts then ''docs''
         else if any_endswith file_lower style_exts then ''style''
         else if startswith file_name (ascii ''test_'') \<or> endswith file_name (ascii ''_test.py'')
                 \<or> contains file_lower (ascii ''test'') then ''test''
         else ''other'')"

definition category_order :: "string list" where
  "category_order = [''code'', ''config'', ''docs'', ''style'', ''test'', ''other'']"

definition categorize_files :: "pylib \<Rightarrow> pystr list \<Rightarrow> (string, nat) pydict" where
  "categorize_files L files =
     (let categories = map (\<lambda>k. (k, 0)) category_order;
          counted = foldl (\<lambda>d file_path. dict_incr (category_of L file_path) d) categories files
      in filter (\<lambda>(k, v). v > 0) counted)"

text \<open>
  The prefixes are an emoji, a space and a word: new, modify, delete, rename, mixed
  change. The labels of the categories: code, configuration, document, style, test,
  other.
\<close>

definition type_prefixes :: "(string, pystr) pydict" where
  "type_prefixes =
    [(''added'', [10024, 32, 26032, 22686]),
     (''modified'', [128221, 32, 20462, 25913]),
     (''deleted'', [128465, 65039, 32, 21024, 38500]),
     (''renamed'', [128230, 32, 37325, 21629, 21517]),
     (''mixed'', [128260, 32, 28151, 21512, 21464, 26356])]"

definition category_names :: "(string, pystr) pydict" where
  "category_names =
    [(''code'', [20195, 30721]),
     (''config'', [37197, 32622]),
     (''docs'', [25991, 26723]),
     (''style'', [26679, 24335]),
     (''test'', [27979, 35797]),
     (''other'', [20854, 20182])]"

text \<open>Lines 129 to 140: the dominant category and its bracketed label.\<close>

definition main_category :: "(string, nat) pydict \<Rightarrow> string option" where
  "main_category file_categories =
     py_max (\<lambda>k. dict_get file_categories k 0) (map fst file_categories)"

definition category_desc :: "(string, nat) pydict \<Rightarrow> pystr" where
  "category_desc file_categories =
     (if file_categories \<noteq> [] then
        (case main_category file_categories of
           Some c \<Rightarrow> ascii '' ['' @ dict_get category_names c default_label @ ascii '']''
         | None \<Rightarrow> [])
      else [])"

text \<open>
  Lines 106 to 157: the message before the length limit. \<open>timestamp\<close> is what
  \<open>datetime.now().strftime("%Y-%m-%d %H:%M:%S")\<close> returns at the time of the call.
\<close>

definition assemble_message ::
  "pylib \<Rightarrow> gen_config \<Rightarrow> pystr \<Rightarrow> string \<Rightarrow> pystr list \<Rightarrow> pystr" where
  "assemble_message L cfg timestamp change_type files =
     (let files_count = length files;
          prefix = dict_get type_prefixes change_type default_prefix;
          file_categories = categorize_files L files;
          file_desc = (if files_count = 1 then one_file
                       else str_of_nat files_count @ files_suffix);
          message_parts = [prefix, file_desc @ category_desc file_categories]
            @ (if files_count \<le> 3 then [ascii '': '' @ join (ascii '', '') files]
               else if files_count = 4 then [ascii '': '' @ join (ascii '', '') files]
               else [ascii '': '' @ join (ascii '', '') (take 3 files) @ and_more])
            @ (if (case include_timestamp cfg of None \<Rightarrow> True | Some b \<Rightarrow> b)
               then [ascii '' ['' @ timestamp @ ascii '']''] else [])
      in concat message_parts)"

text \<open>Lines 159 to 164: the length limit.\<close>

definition max_length_of :: "gen_config \<Rightarrow> int" where
  "max_length_of cfg = (case max_message_length cfg of None \<Rightarrow> 100 | Some m \<Rightarrow> m)"

definition limit_length :: "gen_config \<Rightarrow> pystr \<Rightarrow> pystr" where
  "limit_length cfg commit_message =
     (let max_length = max_length_of cfg
      in if int (length commit_message) > max_length
         then slice_to (max_length - 3) commit_message @ ascii ''...''
         else commit_message)"

definition generate_commit_message ::
  "pylib \<Rightarrow> gen_config \<Rightarrow> pystr \<Rightarrow> string \<Rightarrow> pystr list \<Rightarrow> pystr" where
  "generate_commit_message L cfg timestamp change_type files =
     limit_length cfg (assemble_message L cfg timestamp change_type files)"

text \<open>The number of files of a list that fall into a category.\<close>

definition category_count :: "pylib \<Rightarrow> pystr list \<Rightarrow> string \<Rightarrow> nat" where
  "category_count L files c = length (filter (\<lambda>file_path. category_of L file_path = c) files)"

section \<open>The version-control command runner\<close>

text \<open>\<open>s.strip()\<close>: the code points for which \<open>str.isspace\<close> holds are removed at both ends.\<close>

definition isspace :: "nat \<Rightarrow> bool" where
  "isspace c = ((9 \<le> c \<and> c \<le> 13) \<or> (28 \<le> c \<and> c \<le> 32) \<or> c = 133 \<or> c = 160 \<or> c = 5760
     \<or> (8192 \<le> c \<and> c \<le> 8202) \<or> c = 8232 \<or> c = 8233 \<or> c = 8239 \<or> c = 8287 \<or> c = 12288)"

definition strip :: "pystr \<Rightarrow> pystr" where
  "strip s = rev (dropWhile isspace (rev (dropWhile isspace s)))"

text \<open>
  Every \<open>subprocess.run\<close> of the two scripts runs one of these git commands.
\<close>

datatype git_cmd =
    Fetch                  \<comment> \<open>git fetch origin\<close>
  | BranchShowCurrent      \<comment> \<open>git branch --show-current\<close>
  | LogUnpushed            \<comment> \<open>git log --oneline origin/HEAD..HEAD\<close>
  | MergeBase pystr        \<comment> \<open>git merge-base HEAD origin/<target>\<close>
  | MergeTree pystr pystr  \<comment> \<open>git merge-tree --no-autostash <ancestor> HEAD origin/<target>\<close>
  | Pull                   \<comment> \<open>git pull --no-edit\<close>
  | AddAll                 \<comment> \<open>git add .\<close>
  | CommitNoEdit           \<comment> \<open>git commit --no-edit\<close>
  | CommitM pystr          \<comment> \<open>git commit -m <message>\<close>
  | PushOrigin pystr       \<comment> \<open>git push origin <branch>\<close>
  | Push                   \<comment> \<open>git push\<close>
  | RevParseGitDir         \<comment> \<open>git rev-parse --git-dir\<close>
  | StatusPorcelainV1      \<comment> \<open>git status --porcelain=v1\<close>
  | StatusPorcelain        \<comment> \<open>git status --porcelain\<close>

record completed =
  returncode :: int
  stdout :: pystr
  stderr :: pystr

text \<open>
  A call of \<open>subprocess.run\<close> either returns a completed process or raises; \<open>Inl e\<close> is
  the exception, with \<open>e\<close> its text. The repository and its remote are a state \<open>'w\<close> of
  any type, which every command may read and change: the runner is a parameter
  \<open>git :: 'w \<Rightarrow> git_cmd \<Rightarrow> outcome \<times> 'w\<close>. The commands that were run and the pauses of
  \<open>time.sleep\<close> are recorded, in order, in \<open>history\<close>.
\<close>

type_synonym outcome = "pystr + completed"

type_synonym 'w runner = "'w \<Rightarrow> git_cmd \<Rightarrow> outcome \<times> 'w"

datatype event = Ran git_cmd outcome | Slept int

record 'w sys =
  world :: 'w
  history :: "event list"

definition run :: "'w runner \<Rightarrow> git_cmd \<Rightarrow> 'w sys \<Rightarrow> outcome \<times> 'w sys" where
  "run git c s = (case git (world s) c of
     (r, w') \<Rightarrow> (r, \<lparr>world = w', history = history s @ [Ran c r]\<rparr>))"

text \<open>\<open>time.sleep(d)\<close> raises \<open>ValueError\<close> when \<open>d\<close> is negative.\<close>

definition sleep :: "int \<Rightarrow> 'w sys \<Rightarrow> pystr + 'w sys" where
  "sleep d s = (if d < 0 then Inl (ascii ''sleep length must be non-negative'')
     else Inr (s\<lparr>history := history s @ [Slept d]\<rparr>))"

section \<open>MergeConflictPrevention\<close>

text \<open>
  The two fields that \<open>__init__\<close> reads from the configuration, with 3 and 2 for a key
  that is absent. The delay is a number of seconds.
\<close>

record conflict_config =
  max_retry_attempts :: int
  retry_delay :: int

definition check_exception :: "pystr \<Rightarrow> bool \<times> pystr" where
  "check_exception e = (False, check_failed @ e)"

definition conflict_markers :: "pystr \<Rightarrow> bool" where
  "conflict_markers out = (contains out (ascii ''======='') \<or> contains out (ascii ''<<<<<<<''))"

definition check_for_conflicts ::
  "'w runner \<Rightarrow> pystr option \<Rightarrow> 'w sys \<Rightarrow> (bool \<times> pystr) \<times> 'w sys" where
  "check_for_conflicts git target_branch s =
    (case run git Fetch s of
       (Inl e, s1) \<Rightarrow> (check_exception e, s1)
     | (Inr fetch_result, s1) \<Rightarrow>
       if returncode fetch_result \<noteq> 0
       then ((False, fetch_failed @ stderr fetch_result), s1)
       else
        (case run git BranchShowCurrent s1 of
           (Inl e, s2) \<Rightarrow> (check_exception e, s2)
         | (Inr branch_result, s2) \<Rightarrow>
           let current_branch = strip (stdout branch_result);
               target = (case target_branch of None \<Rightarrow> current_branch | Some t \<Rightarrow> t)
           in
            (case run git LogUnpushed s2 of
               (Inl e, s3) \<Rightarrow> (check_exception e, s3)
             | (Inr unpushed_result, s3) \<Rightarrow>
               if returncode unpushed_result = 0 \<and> strip (stdout unpushed_result) \<noteq> []
               then ((True, unpushed_prefix @ current_branch @ unpushed_suffix), s3)
               else
                (case run git (MergeBase target) s3 of
                   (Inl e, s4) \<Rightarrow> (check_exception e, s4)
                 | (Inr merge_base_result, s4) \<Rightarrow>
                   if returncode merge_base_result \<noteq> 0
                   then ((False, merge_base_failed @ stderr merge_base_result), s4)
                   else
                    let common_ancestor = strip (stdout merge_base_result) in
                    (case run git (MergeTree common_ancestor target) s4 of
                       (Inl e, s5) \<Rightarrow> (check_exception e, s5)
                     | (Inr check_result, s5) \<Rightarrow>
                       if returncode check_result = 0
                       then (if conflict_markers (stdout check_result)
                             then ((True, potential_conflict @ target), s5)
                             else ((False, no_conflict), s5))
                       else ((False, cannot_check), s5))))))"

text \<open>
  The \<open>try\<close> block of one round of \<open>handle_conflicts\<close>, up to the point where the round
  has failed: it returns from the function, raises, or falls through to the retry
  decision with the result of the pull.
\<close>

datatype attempt = Returned bool pystr | Raised pystr | Failed completed

definition try_resolve :: "pylib \<Rightarrow> 'w runner \<Rightarrow> 'w sys \<Rightarrow> attempt \<times> 'w sys" where
  "try_resolve L git s =
    (case check_for_conflicts git None s of
       ((has_conflicts, reason), s1) \<Rightarrow>
       if \<not> has_conflicts
       then (Returned True ready_to_commit, s1)
       else
        (case run git Pull s1 of
           (Inl e, s2) \<Rightarrow> (Raised e, s2)
         | (Inr pull_result, s2) \<Rightarrow>
           if returncode pull_result = 0
           then (Returned True merged, s2)
           else if contains (str_upper L (stdout pull_result)) (ascii ''CONFLICT'')
           then
            (case run git AddAll s2 of
               (Inl e, s3) \<Rightarrow> (Raised e, s3)
             | (Inr resolve_result, s3) \<Rightarrow>
               if returncode resolve_result = 0
               then
                (case run git CommitNoEdit s3 of
                   (Inl e, s4) \<Rightarrow> (Raised e, s4)
                 | (Inr merge_commit_result, s4) \<Rightarrow>
                   if returncode merge_commit_result = 0
                   then (Returned True resolved, s4)
                   else (Failed pull_result, s4))
               else (Failed pull_result, s3))
           else (Failed pull_result, s2)))"

text \<open>
  The loop \<open>for attempt in range(max_retries)\<close>. \<open>Inl e\<close> is an exception that leaves
  \<open>handle_conflicts\<close>: the \<open>sleep\<close> of the \<open>except\<close> clause is not guarded.
\<close>

function handle_loop ::
  "pylib \<Rightarrow> 'w runner \<Rightarrow> conflict_config \<Rightarrow> int \<Rightarrow> int \<Rightarrow> 'w sys
     \<Rightarrow> (pystr + bool \<times> pystr) \<times> 'w sys" where
  "handle_loop L git cfg max_retries attempt s =
    (if attempt < max_retries then
      (case try_resolve L git s of
         (Returned flag msg, s1) \<Rightarrow> (Inr (flag, msg), s1)
       | (Failed pull_result, s1) \<Rightarrow>
           if attempt < max_retries - 1 then
             (case sleep (retry_delay cfg) s1 of
                Inr s2 \<Rightarrow> handle_loop L git cfg max_retries (attempt + 1) s2
              | Inl e \<Rightarrow>
                 (case sleep (retry_delay cfg) s1 of
                    Inr s2 \<Rightarrow> handle_loop L git cfg max_retries (attempt + 1) s2
                  | Inl e' \<Rightarrow> (Inl e', s1)))
           else (Inr (False, resolve_manually @ stderr pull_result), s1)
       | (Raised e, s1) \<Rightarrow>
           if attempt < max_retries - 1 then
             (case sleep (retry_delay cfg) s1 of
                Inr s2 \<Rightarrow> handle_loop L git cfg max_retries (attempt + 1) s2
              | Inl e' \<Rightarrow> (Inl e', s1))
           else (Inr (False, handling_failed @ e), s1))
     else (Inr (False, retries_exhausted), s))"
  by pat_completeness auto
termination
  by (relation "measure (\<lambda>(L, git, cfg, max_retries, attempt, s). nat (max_retries - attempt))")
     auto

declare handle_loop.simps [simp del]

text \<open>\<open>max_retries = max_retries or self.max_retry_attempts\<close>: \<open>None\<close> and \<open>0\<close> are falsy.\<close>

definition effective_retries :: "conflict_config \<Rightarrow> int option \<Rightarrow> int" where
  "effective_retries cfg max_retries =
     (case max_retries of None \<Rightarrow> max_retry_attempts cfg
      | Some n \<Rightarrow> if n = 0 then max_retry_attempts cfg else n)"

definition handle_conflicts ::
  "pylib \<Rightarrow> 'w runner \<Rightarrow> conflict_config \<Rightarrow> int option \<Rightarrow> 'w sys
     \<Rightarrow> (pystr + bool \<times> pystr) \<times> 'w sys" where
  "handle_conflicts L git cfg max_retries s =
     handle_loop L git cfg (effective_retries cfg max_retries) 0 s"

section \<open>EnhancedGitAutomation\<close>

record change =
  event_type :: string
  file_path :: pystr
  timestamp :: int

text \<open>An entry of \<open>changes\<close>, with the keys \<open>file\<close>, \<open>type\<close> and \<open>status_code\<close>.\<close>

record status_change =
  ch_file :: pystr
  ch_type :: string
  ch_status_code :: pystr

record git_info =
  current_branch :: pystr
  changes :: "status_change list"

definition has_changes :: "git_info \<Rightarrow> bool" where
  "has_changes info = (length (changes info) > 0)"

record auto_config =
  commit_generation :: gen_config
  conflict_handling_enabled :: bool
  commit_delay :: int
  auto_push :: bool

text \<open>
  The state of one \<open>EnhancedGitAutomation\<close> object. \<open>last_commit_time\<close> is written by
  \<open>process_changes\<close> and read nowhere; it is left out.
\<close>

record 'w automation =
  pending_changes :: "change list"
  processing_changes :: bool
  procs :: "'w sys"

text \<open>
  The output of \<open>git status\<close> is stripped and split at the line feeds; the lines that
  are not empty are kept.
\<close>

definition status_lines :: "pystr \<Rightarrow> pystr list" where
  "status_lines out = filter (\<lambda>line. line \<noteq> []) (split_on 10 (strip out))"

text \<open>Lines 465 to 485: one line of \<open>git status --porcelain=v1\<close>.\<close>

definition parse_status_line :: "pystr \<Rightarrow> status_change" where
  "parse_status_line line =
     (let code = take 2 line;
          path = drop 3 line;
          change_type =
            (if take 1 code = ascii ''A'' \<or> code = ascii ''??'' then ''added''
             else if take 1 code = ascii ''D'' then ''deleted''
             else if take 1 code = ascii ''R'' then ''renamed''
             else if take 1 code = ascii ''C'' then ''copied''
             else ''modified'')
      in \<lparr>ch_file = path, ch_type = change_type, ch_status_code = code\<rparr>)"

definition status_exception :: "pystr \<Rightarrow> pystr" where
  "status_exception e = status_raised @ e"

text \<open>\<open>get_git_status\<close> returns \<open>(None, error)\<close> or \<open>(git_info, None)\<close>: a sum.\<close>

definition get_git_status :: "'w runner \<Rightarrow> 'w sys \<Rightarrow> (pystr + git_info) \<times> 'w sys" where
  "get_git_status git s =
    (case run git RevParseGitDir s of
       (Inl e, s1) \<Rightarrow> (Inl (status_exception e), s1)
     | (Inr repo_result, s1) \<Rightarrow>
       if returncode repo_result \<noteq> 0
       then (Inl not_a_repository, s1)
       else
        (case run git BranchShowCurrent s1 of
           (Inl e, s2) \<Rightarrow> (Inl (status_exception e), s2)
         | (Inr branch_result, s2) \<Rightarrow>
           let branch = (if returncode branch_result = 0 then strip (stdout branch_result)
                         else ascii ''unknown'')
           in
            (case run git StatusPorcelainV1 s2 of
               (Inl e, s3) \<Rightarrow> (Inl (status_exception e), s3)
             | (Inr status_result, s3) \<Rightarrow>
               if returncode status_result \<noteq> 0
               then (Inl (status_failed @ stderr status_result), s3)
               else
                 (Inr \<lparr>current_branch = branch,
                       changes = map parse_status_line
                         (status_lines (stdout status_result))\<rparr>, s3))))"

text \<open>Lines 538 to 544: one change type, or \<open>mixed\<close>.\<close>

definition primary_change_type :: "status_change list \<Rightarrow> string" where
  "primary_change_type cs = (case remdups (map ch_type cs) of [t] \<Rightarrow> t | _ \<Rightarrow> ''mixed'')"

text \<open>
  Lines 563 to 610: add, commit and push. \<open>get_auth_config\<close> only fills the environment
  of the three commands, which is part of what the runner reads from the world. An
  exception of \<open>subprocess.run\<close> is caught by the \<open>except\<close> clause of \<open>process_changes\<close>,
  which returns \<open>False\<close>.
\<close>

definition commit_and_push ::
  "'w runner \<Rightarrow> auto_config \<Rightarrow> pystr \<Rightarrow> pystr \<Rightarrow> 'w automation \<Rightarrow> bool \<times> 'w automation" where
  "commit_and_push git cfg commit_message branch a =
    (case run git AddAll (procs a) of
       (Inl e, s1) \<Rightarrow> (False, a\<lparr>procs := s1\<rparr>)
     | (Inr add_result, s1) \<Rightarrow>
       if returncode add_result \<noteq> 0 then (False, a\<lparr>procs := s1\<rparr>)
       else
        (case run git (CommitM commit_message) s1 of
           (Inl e, s2) \<Rightarrow> (False, a\<lparr>procs := s2\<rparr>)
         | (Inr commit_result, s2) \<Rightarrow>
           if returncode commit_result \<noteq> 0 then (False, a\<lparr>procs := s2\<rparr>)
           else if auto_push cfg then
            (case run git (PushOrigin branch) s2 of
               (Inl e, s3) \<Rightarrow> (False, a\<lparr>procs := s3\<rparr>)
             | (Inr push_result, s3) \<Rightarrow> (True, a\<lparr>procs := s3, pending_changes := []\<rparr>))
           else (True, a\<lparr>procs := s2, pending_changes := []\<rparr>)))"

text \<open>Lines 527 to 561, then the three commands: the \<open>try\<close> block of \<open>process_changes\<close>.\<close>

definition flush_body ::
  "pylib \<Rightarrow> 'w runner \<Rightarrow> auto_config \<Rightarrow> pystr \<Rightarrow> 'w automation \<Rightarrow> bool \<times> 'w automation" where
  "flush_body L git cfg now a =
    (case get_git_status git (procs a) of
       (Inl error, s1) \<Rightarrow> (False, a\<lparr>procs := s1\<rparr>)
     | (Inr git_status, s1) \<Rightarrow>
       if \<not> has_changes git_status then (False, a\<lparr>procs := s1, pending_changes := []\<rparr>)
       else
        let primary = primary_change_type (changes git_status);
            files = map ch_file (changes git_status);
            commit_message =
              generate_commit_message L (commit_generation cfg) now primary files
        in if conflict_handling_enabled cfg then
            (case check_for_conflicts git None s1 of
               ((success, message), s2) \<Rightarrow>
                 if \<not> success then (False, a\<lparr>procs := s2\<rparr>)
                 else commit_and_push git cfg commit_message (current_branch git_status)
                        (a\<lparr>procs := s2\<rparr>))
           else commit_and_push git cfg commit_message (current_branch git_status)
                  (a\<lparr>procs := s1\<rparr>))"

text \<open>
  Lines 521 to 525, under \<open>change_lock\<close>: the test of the in-progress marker and of the
  queue, and the setting of the marker. The result tells whether the flush was entered.
\<close>

definition begin_flush :: "'w automation \<Rightarrow> bool \<times> 'w automation" where
  "begin_flush a =
     (if processing_changes a \<or> pending_changes a = [] then (False, a)
      else (True, a\<lparr>processing_changes := True\<rparr>))"

text \<open>Lines 615 and 616: the \<open>finally\<close> clause.\<close>

definition end_flush :: "'w automation \<Rightarrow> 'w automation" where
  "end_flush a = a\<lparr>processing_changes := False\<rparr>"

definition process_changes ::
  "pylib \<Rightarrow> 'w runner \<Rightarrow> auto_config \<Rightarrow> pystr \<Rightarrow> 'w automation \<Rightarrow> bool \<times> 'w automation" where
  "process_changes L git cfg now a =
    (case begin_flush a of
       (False, a0) \<Rightarrow> (False, a0)
     | (True, a1) \<Rightarrow>
        (case flush_body L git cfg now a1 of (result, a2) \<Rightarrow> (result, end_flush a2)))"

text \<open>
  \<open>GitAutomationHandler.on_any_event\<close>. \<open>should_process\<close> is the answer of
  \<open>should_process_file\<close> for the path at that moment (it reads the age of the file and
  the ignore patterns). The second component is the delay of the timer the call starts
  for \<open>process_changes\<close>, if it starts one.
\<close>

record fs_event =
  is_directory :: bool
  src_path :: pystr
  kind :: string

definition on_any_event ::
  "auto_config \<Rightarrow> (pystr \<Rightarrow> bool) \<Rightarrow> int \<Rightarrow> fs_event \<Rightarrow> 'w automation
     \<Rightarrow> 'w automation \<times> int option" where
  "on_any_event cfg should_process now ev a =
     (if is_directory ev then (a, None)
      else if \<not> should_process (src_path ev) then (a, None)
      else (a\<lparr>pending_changes := pending_changes a
                 @ [\<lparr>event_type = kind ev, file_path = src_path ev, timestamp = now\<rparr>]\<rparr>,
            Some (commit_delay cfg)))"

section \<open>AutoGitCommitHandler\<close>

text \<open>
  \<open>commit_message_template\<close> is the configured template with \<open>str.format\<close> applied to
  it: a function of \<open>timestamp\<close>, \<open>files_count\<close> and \<open>files\<close> that returns the text or
  raises (a template may name a field that is not supplied).
\<close>

record ac_config =
  ac_commit_delay :: int
  commit_message_template :: "pystr \<Rightarrow> nat \<Rightarrow> pystr \<Rightarrow> pystr + pystr"
  enable_branch_check :: bool
  allowed_branches :: "pystr list"
  max_commit_message_length :: int

text \<open>The default template: the timestamp and the number of files.\<close>

definition default_template :: "pystr \<Rightarrow> nat \<Rightarrow> pystr \<Rightarrow> pystr + pystr" where
  "default_template ts files_count files =
     Inr (auto_commit_prefix @ ts @ ascii '' - '' @ str_of_nat files_count @ files_suffix)"

record ac_status =
  changed_files :: "pystr list"
  ac_current_branch :: "pystr option"
  ac_has_changes :: bool

definition ac_status_exception :: "pystr \<Rightarrow> pystr" where
  "ac_status_exception e = status_failed @ e"

definition ac_get_git_status :: "'w runner \<Rightarrow> 'w sys \<Rightarrow> (pystr + ac_status) \<times> 'w sys" where
  "ac_get_git_status git s =
    (case run git StatusPorcelain s of
       (Inl e, s1) \<Rightarrow> (Inl (ac_status_exception e), s1)
     | (Inr result, s1) \<Rightarrow>
       if returncode result \<noteq> 0
       then (Inl (command_failed @ stderr result), s1)
       else
        (case run git BranchShowCurrent s1 of
           (Inl e, s2) \<Rightarrow> (Inl (ac_status_exception e), s2)
         | (Inr branch_result, s2) \<Rightarrow>
            (Inr \<lparr>changed_files = map (drop 3) (status_lines (stdout result)),
                  ac_current_branch = (if returncode branch_result = 0
                     then Some (strip (stdout branch_result)) else None),
                  ac_has_changes = (length (strip (stdout result)) > 0)\<rparr>, s2)))"

text \<open>The truth value of \<open>git_status["current_branch"]\<close>: \<open>None\<close> and \<open>''\<close> are falsy.\<close>

definition truthy :: "pystr option \<Rightarrow> bool" where
  "truthy b = (case b of None \<Rightarrow> False | Some x \<Rightarrow> x \<noteq> [])"

definition branch_rejected :: "ac_config \<Rightarrow> ac_status \<Rightarrow> bool" where
  "branch_rejected cfg st =
     (enable_branch_check cfg \<and> truthy (ac_current_branch st)
      \<and> (case ac_current_branch st of None \<Rightarrow> True | Some b \<Rightarrow> b \<notin> set (allowed_branches cfg)))"

text \<open>Lines 177 and 178: the first three files, and three dots when there are more.\<close>

definition files_summary :: "pystr list \<Rightarrow> pystr" where
  "files_summary files =
     join (ascii '', '') (take 3 files) @ (if length files > 3 then ascii ''...'' else [])"

text \<open>Lines 181 to 183.\<close>

definition ac_truncate :: "ac_config \<Rightarrow> pystr \<Rightarrow> pystr" where
  "ac_truncate cfg commit_message =
     (if int (length commit_message) > max_commit_message_length cfg
      then slice_to (max_commit_message_length cfg) commit_message @ ascii ''...''
      else commit_message)"

text \<open>Lines 187 to 225; an exception is caught by the \<open>except\<close> clause of \<open>commit_changes\<close>.\<close>

definition ac_commit_and_push :: "'w runner \<Rightarrow> pystr \<Rightarrow> 'w sys \<Rightarrow> 'w sys" where
  "ac_commit_and_push git commit_message s =
    (case run git AddAll s of
       (Inl e, s1) \<Rightarrow> s1
     | (Inr add_result, s1) \<Rightarrow>
       if returncode add_result \<noteq> 0 then s1
       else
        (case run git (CommitM commit_message) s1 of
           (Inl e, s2) \<Rightarrow> s2
         | (Inr commit_result, s2) \<Rightarrow>
           if returncode commit_result \<noteq> 0 then s2
           else (case run git Push s2 of (push_result, s3) \<Rightarrow> s3)))"

text \<open>\<open>commit_changes\<close> returns nothing; what it does is in the history.\<close>

definition commit_changes :: "'w runner \<Rightarrow> ac_config \<Rightarrow> pystr \<Rightarrow> 'w sys \<Rightarrow> 'w sys" where
  "commit_changes git cfg now s =
    (case ac_get_git_status git s of
       (Inl error, s1) \<Rightarrow> s1
     | (Inr git_status, s1) \<Rightarrow>
       if \<not> ac_has_changes git_status then s1
       else if branch_rejected cfg git_status then s1
       else
        let files_count = length (changed_files git_status) in
        if files_count = 0 then s1
        else
         (case commit_message_template cfg now files_count
                 (files_summary (changed_files git_status))
          of Inl e \<Rightarrow> s1
           | Inr commit_message \<Rightarrow> ac_commit_and_push git (ac_truncate cfg commit_message) s1))"

text \<open>
  \<open>AutoGitCommitHandler.on_any_event\<close>: \<open>should_include\<close> is \<open>should_include_file\<close>, the
  match of the path against the configured patterns.
\<close>

definition ac_on_any_event ::
  "ac_config \<Rightarrow> (pystr \<Rightarrow> bool) \<Rightarrow> fs_event \<Rightarrow> 'w sys \<Rightarrow> 'w sys \<times> int option" where
  "ac_on_any_event cfg should_include ev s =
     (if is_directory ev then (s, None)
      else if \<not> should_include (src_path ev) then (s, None)
      else (s, Some (ac_commit_delay cfg)))"

section \<open>Timers\<close>

text \<open>
  \<open>threading.Timer(d, f).start()\<close> at time \<open>t\<close> calls \<open>f\<close> at time \<open>t + d\<close>; neither script
  keeps the timer object or cancels it. A session is a list of events with their arrival
  times, in time order. \<open>timers\<close> holds the due times of the timers that were started and
  have not fired, \<open>fired\<close> the times at which the callback was called. Before an event
  that arrives at time \<open>t\<close> is delivered, the timers due by \<open>t\<close> fire; each call of the
  callback runs to its end before the next thing happens.
\<close>

record 'h sched =
  handler :: 'h
  timers :: "int list"
  fired :: "int list"

fun fire_all :: "(int \<Rightarrow> 'h \<Rightarrow> 'h) \<Rightarrow> int list \<Rightarrow> 'h sched \<Rightarrow> 'h sched" where
  "fire_all callback [] m = m"
| "fire_all callback (d # ds) m =
     fire_all callback ds (m\<lparr>handler := callback d (handler m), fired := fired m @ [d]\<rparr>)"

definition advance :: "(int \<Rightarrow> 'h \<Rightarrow> 'h) \<Rightarrow> int \<Rightarrow> 'h sched \<Rightarrow> 'h sched" where
  "advance callback t m =
     fire_all callback (filter (\<lambda>d. d \<le> t) (timers m))
       (m\<lparr>timers := filter (\<lambda>d. \<not> d \<le> t) (timers m)\<rparr>)"

definition deliver ::
  "(int \<Rightarrow> 'e \<Rightarrow> 'h \<Rightarrow> 'h \<times> int option) \<Rightarrow> int \<Rightarrow> 'e \<Rightarrow> 'h sched \<Rightarrow> 'h sched" where
  "deliver on_event t ev m =
     (case on_event t ev (handler m) of
        (h, None) \<Rightarrow> m\<lparr>handler := h\<rparr>
      | (h, Some d) \<Rightarrow> m\<lparr>handler := h, timers := timers m @ [t + d]\<rparr>)"

definition session ::
  "(int \<Rightarrow> 'e \<Rightarrow> 'h \<Rightarrow> 'h \<times> int option) \<Rightarrow> (int \<Rightarrow> 'h \<Rightarrow> 'h) \<Rightarrow> (int \<times> 'e) list
     \<Rightarrow> 'h \<Rightarrow> 'h sched" where
  "session on_event callback evs h =
     (let m = foldl (\<lambda>m (t, ev). deliver on_event t ev (advance callback t m))
                \<lparr>handler = h, timers = [], fired = []\<rparr> evs
      in fire_all callback (timers m) (m\<lparr>timers := []\<rparr>))"

text \<open>
  The two watchers. \<open>should_process\<close> and \<open>clock\<close> depend on the time of the call:
  \<open>clock t\<close> is the text of \<open>datetime.now()\<close> at time \<open>t\<close>.
\<close>

definition enhanced_session ::
  "pylib \<Rightarrow> 'w runner \<Rightarrow> auto_config \<Rightarrow> (int \<Rightarrow> pystr \<Rightarrow> bool) \<Rightarrow> (int \<Rightarrow> pystr)
     \<Rightarrow> (int \<times> fs_event) list \<Rightarrow> 'w automation \<Rightarrow> 'w automation sched" where
  "enhanced_session L git cfg should_process clock evs a =
     session (\<lambda>t ev. on_any_event cfg (should_process t) t ev)
       (\<lambda>t a. snd (process_changes L git cfg (clock t) a)) evs a"

definition auto_commit_session ::
  "'w runner \<Rightarrow> ac_config \<Rightarrow> (pystr \<Rightarrow> bool) \<Rightarrow> (int \<Rightarrow> pystr)
     \<Rightarrow> (int \<times> fs_event) list \<Rightarrow> 'w sys \<Rightarrow> 'w sys sched" where
  "auto_commit_session git cfg should_include clock evs s =
     session (\<lambda>t ev. ac_on_any_event cfg should_include ev)
       (\<lambda>t s. commit_changes git cfg (clock t) s) evs s"

text \<open>The events of a session that start a timer.\<close>

definition qualifying :: "(int \<Rightarrow> pystr \<Rightarrow> bool) \<Rightarrow> (int \<times> fs_event) list \<Rightarrow> (int \<times> fs_event) list" where
  "qualifying should_process evs =
     filter (\<lambda>(t, ev). \<not> is_directory ev \<and> should_process t (src_path ev)) evs"

text \<open>The number of times a command was run, read off the history.\<close>

definition times_run :: "git_cmd \<Rightarrow> event list \<Rightarrow> nat" where
  "times_run c h = length (filter (\<lambda>e. case e of Ran c' r \<Rightarrow> c' = c | Slept d \<Rightarrow> False) h)"

section \<open>Concurrent calls of the flush\<close>

text \<open>
  Several timer threads may call \<open>process_changes\<close> while the watcher thread delivers
  events. The steps of a thread are the three parts of the function: the entry under
  \<open>change_lock\<close>, the \<open>try\<close> block, the \<open>finally\<close> clause. \<open>in_try\<close> lists the threads that
  have entered and not yet run the \<open>try\<close> block, \<open>in_finally\<close> those that have run it
  and not yet the \<open>finally\<close> clause. A step that a thread cannot take where it stands
  changes nothing.
\<close>

datatype action = Notify int fs_event | Enter nat | Work nat pystr | Leave nat

record 'w threads =
  shared :: "'w automation"
  in_try :: "nat list"
  in_finally :: "nat list"

definition step ::
  "pylib \<Rightarrow> 'w runner \<Rightarrow> auto_config \<Rightarrow> (int \<Rightarrow> pystr \<Rightarrow> bool) \<Rightarrow> action \<Rightarrow> 'w threads
     \<Rightarrow> 'w threads" where
  "step L git cfg should_process act c =
     (case act of
        Notify t ev \<Rightarrow> c\<lparr>shared := fst (on_any_event cfg (should_process t) t ev (shared c))\<rparr>
      | Enter i \<Rightarrow>
          if i \<in> set (in_try c @ in_finally c) then c
          else (case begin_flush (shared c) of
                  (True, a) \<Rightarrow> c\<lparr>shared := a, in_try := i # in_try c\<rparr>
                | (False, a) \<Rightarrow> c\<lparr>shared := a\<rparr>)
      | Work i now \<Rightarrow>
          if i \<in> set (in_try c)
          then c\<lparr>shared := snd (flush_body L git cfg now (shared c)),
                 in_try := removeAll i (in_try c), in_finally := i # in_finally c\<rparr>
          else c
      | Leave i \<Rightarrow>
          if i \<in> set (in_finally c)
          then c\<lparr>shared := end_flush (shared c), in_finally := removeAll i (in_finally c)\<rparr>
          else c)"

definition execute ::
  "pylib \<Rightarrow> 'w runner \<Rightarrow> auto_config \<Rightarrow> (int \<Rightarrow> pystr \<Rightarrow> bool) \<Rightarrow> action list \<Rightarrow> 'w threads
     \<Rightarrow> 'w threads" where
  "execute L git cfg should_process acts c = foldl (\<lambda>c act. step L git cfg should_process act c) c acts"

text \<open>A fresh object: nothing pending, no flush in progress, no thread inside.\<close>

definition fresh :: "'w \<Rightarrow> 'w automation" where
  "fresh w = \<lparr>pending_changes = [], processing_changes = False,
              procs = \<lparr>world = w, history = []\<rparr>\<rparr>"

definition idle :: "'w \<Rightarrow> 'w threads" where
  "idle w = \<lparr>shared = fresh w, in_try = [], in_finally = []\<rparr>"

text \<open>The pending list after a run of events with no flush in between.\<close>

definition record_all ::
  "auto_config \<Rightarrow> (int \<Rightarrow> pystr \<Rightarrow> bool) \<Rightarrow> (int \<times> fs_event) list \<Rightarrow> 'w automation
     \<Rightarrow> 'w automation" where
  "record_all cfg should_process evs a =
     foldl (\<lambda>a (t, ev). fst (on_any_event cfg (should_process t) t ev a)) a evs"

section \<open>Reading a history\<close>

text \<open>The rounds of conflict handling: each pull is an attempt, each sleep a wait.\<close>

datatype mark = Attempt | Wait int

fun marks :: "event list \<Rightarrow> mark list" where
  "marks [] = []"
| "marks (Ran c r # h) = (if c = Pull then Attempt # marks h else marks h)"
| "marks (Slept d # h) = Wait d # marks h"


text \<open>A command succeeded: it returned, with return code 0.\<close>

definition succeeded :: "outcome \<Rightarrow> bool" where
  "succeeded r = (case r of Inl e \<Rightarrow> False | Inr p \<Rightarrow> returncode p = 0)"

text \<open>The kind of the last pending entry for a path, if there is one.\<close>

definition latest :: "pystr \<Rightarrow> change list \<Rightarrow> string option" where
  "latest p pending =
     (case rev (filter (\<lambda>c. file_path c = p) pending) of [] \<Rightarrow> None
      | c # _ \<Rightarrow> Some (event_type c))"


text \<open>The entry that \<open>on_any_event\<close> appends for an event that arrives at a time.\<close>

definition entry_of :: "int \<times> fs_event \<Rightarrow> change" where
  "entry_of te =
     \<lparr>event_type = kind (snd te), file_path = src_path (snd te), timestamp = fst te\<rparr>"

text \<open>
  At most one thread is between the entry and the end of the \<open>finally\<close> clause, and the
  in-progress marker is set exactly when there is one.
\<close>

definition exclusive :: "'w threads \<Rightarrow> bool" where
  "exclusive c = (length (in_try c @ in_finally c) \<le> 1
     \<and> processing_changes (shared c) = (in_try c @ in_finally c \<noteq> []))"

section \<open>A repository for concrete runs\<close>

definition ok :: "pystr \<Rightarrow> outcome" where
  "ok out = Inr \<lparr>returncode = 0, stdout = out, stderr = []\<rparr>"

definition refused :: "pystr \<Rightarrow> outcome" where
  "refused err = Inr \<lparr>returncode = 1, stdout = [], stderr = err\<rparr>"

text \<open>
  A repository with one changed file and local commits that are not pushed, whose
  remote can be fetched and refuses the pull and the push. The answer to
  \<open>git branch --show-current\<close> is a parameter.
\<close>

definition demo_git :: "pystr \<Rightarrow> unit runner" where
  "demo_git branch_out w c =
     (case c of
        RevParseGitDir \<Rightarrow> ok (ascii ''.git'' @ [10])
      | BranchShowCurrent \<Rightarrow> ok branch_out
      | StatusPorcelainV1 \<Rightarrow> ok (ascii ''M  a.py'' @ [10])
      | StatusPorcelain \<Rightarrow> ok (ascii ''M  a.py'' @ [10])
      | Fetch \<Rightarrow> ok []
      | LogUnpushed \<Rightarrow> ok (ascii ''1a2b3c4 wip'' @ [10])
      | AddAll \<Rightarrow> ok []
      | CommitM m \<Rightarrow> ok []
      | _ \<Rightarrow> refused (ascii ''rejected''), w)"

definition start :: "unit sys" where
  "start = \<lparr>world = (), history = []\<rparr>"

definition demo_config :: auto_config where
  "demo_config = \<lparr>commit_generation = \<lparr>include_timestamp = Some False, max_message_length = None\<rparr>,
     conflict_handling_enabled = True, commit_delay = 5, auto_push = True\<rparr>"

definition demo_ac_config :: ac_config where
  "demo_ac_config = \<lparr>ac_commit_delay = 5, commit_message_template = default_template,
     enable_branch_check = True,
     allowed_branches = [ascii ''main'', ascii ''master'', ascii ''develop''],
     max_commit_message_length = 100\<rparr>"

definition edit :: "pystr \<Rightarrow> fs_event" where
  "edit p = \<lparr>is_directory = False, src_path = p, kind = ''modified''\<rparr>"

text \<open>A filter that accepts every path, and a clock whose text is empty.\<close>

definition accept_all :: "int \<Rightarrow> pystr \<Rightarrow> bool" where
  "accept_all t p = True"

definition no_clock :: "int \<Rightarrow> pystr" where
  "no_clock t = []"


section \<open>Evaluation of the definitions on concrete inputs\<close>

lemmas generator_defs =
  generate_commit_message_def limit_length_def assemble_message_def slice_to_def ascii_def
  max_length_of_def categorize_files_def category_of_def category_desc_def main_category_def
  py_max_def dict_get_def dict_incr_def type_prefixes_def category_names_def category_order_def
  any_endswith_def endswith_def startswith_def code_exts_def config_exts_def docs_exts_def
  style_exts_def ascii_lib_def ascii_lower_def ascii_upper_def posix_name_def str_of_nat.simps
  default_prefix_def default_label_def one_file_def files_suffix_def and_more_def

section \<open>The commit message\<close>

subsection \<open>The dominant category\<close>

lemma py_max_foldl:
  "foldl (\<lambda>best y. if (f best :: nat) < f y then y else best) x ys = r \<Longrightarrow>
   r \<in> set (x # ys) \<and> (\<forall>z\<in>set (x # ys). f z \<le> f r) \<and>
   (\<forall>z\<in>set (takeWhile (\<lambda>z. z \<noteq> r) (x # ys)). f z < f r)"
proof (induction ys arbitrary: x)
  case Nil
  then show ?case by simp
next
  case (Cons y ys)
  show ?case
  proof (cases "f x < f y")
    case True
    with Cons.prems have "foldl (\<lambda>best y. if f best < f y then y else best) y ys = r" by simp
    from Cons.IH[OF this] True show ?thesis by (auto split: if_splits)
  next
    case False
    with Cons.prems have "foldl (\<lambda>best y. if f best < f y then y else best) x ys = r" by simp
    from Cons.IH[OF this] False show ?thesis by (fastforce split: if_splits)
  qed
qed

lemma py_max_first:
  assumes "py_max f xs = Some r"
  shows "r \<in> set xs" and "\<forall>z\<in>set xs. f z \<le> f r"
    and "\<forall>z\<in>set (takeWhile (\<lambda>z. z \<noteq> r) xs). f z < f r"
  using assms py_max_foldl[of f _ _ r]
  by (auto simp: py_max_def split: list.splits)

lemma dict_incr_map:
  "dict_incr c (map (\<lambda>k. (k, n k)) ks) = map (\<lambda>k. (k, if k = c then n k + 1 else n k)) ks"
  by (simp add: dict_incr_def)

text \<open>The counting loop adds, to each key, the number of files that take its branch.\<close>

lemma count_loop:
  "foldl (\<lambda>d file_path. dict_incr (g file_path) d) (map (\<lambda>k. (k, n k)) ks) files
     = map (\<lambda>k. (k, n k + length (filter (\<lambda>file_path. g file_path = k) files))) ks"
proof (induction files arbitrary: n)
  case Nil
  then show ?case by simp
next
  case (Cons a files)
  show ?case by (simp add: dict_incr_map Cons.IH)
qed

lemma categorize_files_eq:
  "categorize_files L files =
     map (\<lambda>k. (k, category_count L files k))
       (filter (\<lambda>k. 0 < category_count L files k) category_order)"
  using count_loop[of "category_of L" "\<lambda>k. 0" category_order files]
  by (simp add: categorize_files_def category_count_def filter_map comp_def)

lemma category_of_in_order: "category_of L f \<in> set category_order"
  by (simp add: category_of_def category_order_def Let_def)

lemma takeWhile_filter_mem:
  "z \<in> set (takeWhile Q xs) \<Longrightarrow> P z \<Longrightarrow> z \<in> set (takeWhile Q (filter P xs))"
  by (induction xs) (auto split: if_splits)

lemma dict_get_counts:
  "k \<in> set ks \<Longrightarrow> dict_get (map (\<lambda>k. (k, n k)) ks) k d = n k"
  by (induction ks) (auto simp: dict_get_def)

lemma some_category_counted:
  assumes "files \<noteq> []"
  shows "\<exists>k\<in>set category_order. 0 < category_count L files k"
proof -
  obtain f fs where "files = f # fs" using assms by (cases files) auto
  then have "0 < category_count L files (category_of L f)"
    by (simp add: category_count_def)
  then show ?thesis using category_of_in_order by blast
qed

text \<open>
  Claim C8. For every non-empty list of files, the category whose label is appended to
  the message is a category with the highest file count, and every category that comes
  before it in the order code, config, docs, style, test, other has a strictly smaller
  count: among the categories that tie for the highest count the first in that order is
  chosen.
\<close>

theorem dominant_category:
  assumes "files \<noteq> []"
  shows "\<exists>c. main_category (categorize_files L files) = Some c
           \<and> c \<in> set category_order
           \<and> (\<forall>c'\<in>set category_order. category_count L files c' \<le> category_count L files c)
           \<and> (\<forall>c'\<in>set (takeWhile (\<lambda>x. x \<noteq> c) category_order).
                  category_count L files c' < category_count L files c)
           \<and> category_desc (categorize_files L files)
                = ascii '' ['' @ dict_get category_names c default_label @ ascii '']''"
proof -
  let ?cnt = "category_count L files"
  let ?ks = "filter (\<lambda>k. 0 < ?cnt k) category_order"
  let ?d = "categorize_files L files"
  have d: "?d = map (\<lambda>k. (k, ?cnt k)) ?ks" by (rule categorize_files_eq)
  have keys: "map fst ?d = ?ks" by (simp add: d comp_def)
  from some_category_counted[OF assms] have ne: "?ks \<noteq> []"
    by (auto simp: filter_empty_conv)
  then obtain c where c: "main_category ?d = Some c"
    by (cases ?ks) (auto simp: main_category_def keys py_max_def simp del: filter.simps)
  let ?f = "\<lambda>k. dict_get ?d k 0"
  have pm: "py_max ?f ?ks = Some c" using c by (simp add: main_category_def keys)
  have cin: "c \<in> set ?ks" using py_max_first(1)[OF pm] .
  have fval: "?f k = ?cnt k" if "k \<in> set ?ks" for k
    using that dict_get_counts[of k ?ks ?cnt 0] by (simp add: d)
  have cpos: "0 < ?cnt c" using cin by simp
  have le: "?cnt c' \<le> ?cnt c" if "c' \<in> set category_order" for c'
  proof (cases "0 < ?cnt c'")
    case True
    then have "c' \<in> set ?ks" using that by simp
    then show ?thesis using py_max_first(2)[OF pm] fval cin by metis
  next
    case False
    then show ?thesis by simp
  qed
  have lt: "?cnt c' < ?cnt c"
    if "c' \<in> set (takeWhile (\<lambda>x. x \<noteq> c) category_order)" for c'
  proof (cases "0 < ?cnt c'")
    case True
    then have m: "c' \<in> set (takeWhile (\<lambda>x. x \<noteq> c) ?ks)"
      using that takeWhile_filter_mem[of c' "\<lambda>x. x \<noteq> c" category_order "\<lambda>k. 0 < ?cnt k"]
      by simp
    then have "c' \<in> set ?ks" by (meson set_takeWhileD)
    then show ?thesis using py_max_first(3)[OF pm] m fval cin by metis
  next
    case False
    then show ?thesis using cpos by simp
  qed
  have desc: "category_desc ?d
      = ascii '' ['' @ dict_get category_names c default_label @ ascii '']''"
    using ne c by (simp add: category_desc_def d del: filter.simps)
  show ?thesis using c cin le lt desc by auto
qed

text \<open>Two documents and two sources tie; the label is that of code, which comes first.\<close>

theorem dominant_category_witness:
  "[ascii ''a.md'', ascii ''b.py'', ascii ''c.md'', ascii ''d.py'', ascii ''e.css''] \<noteq> []
   \<and> main_category (categorize_files ascii_lib
         [ascii ''a.md'', ascii ''b.py'', ascii ''c.md'', ascii ''d.py'', ascii ''e.css''])
       = Some ''code''
   \<and> category_count ascii_lib
         [ascii ''a.md'', ascii ''b.py'', ascii ''c.md'', ascii ''d.py'', ascii ''e.css'']
         ''docs'' = 2"
  using dominant_category[of
      "[ascii ''a.md'', ascii ''b.py'', ascii ''c.md'', ascii ''d.py'', ascii ''e.css'']"
      ascii_lib]
  by (simp add: generator_defs category_count_def)

subsection \<open>The length limit\<close>

text \<open>
  Claim C2, as stated: the returned message is never longer than the configured limit.
  With a limit of 2 the slice \<open>[:max_length-3]\<close> has a negative bound and removes one
  code point from the end: the message for one modified file \<open>a.py\<close> has 22 code points.
\<close>

theorem message_length_counterexample:
  "\<not> int (length (generate_commit_message ascii_lib
        \<lparr>include_timestamp = Some False, max_message_length = Some 2\<rparr> [] ''modified''
        [ascii ''a.py'']))
      \<le> max_length_of \<lparr>include_timestamp = Some False, max_message_length = Some 2\<rparr>"
  by (simp add: generator_defs)

text \<open>
  Claim C2, amended. When the limit is at least 3, the message returned by
  \<open>generate_commit_message\<close> is never longer than the limit; it is the assembled
  message itself when that fits, and otherwise the first \<open>max_length - 3\<close> code points
  of the assembled message followed by three dots, cut once, at the end.
\<close>

theorem message_length_bounded:
  assumes "3 \<le> max_length_of cfg"
  shows "int (length (generate_commit_message L cfg ts ct files)) \<le> max_length_of cfg
    \<and> generate_commit_message L cfg ts ct files =
        (if int (length (assemble_message L cfg ts ct files)) \<le> max_length_of cfg
         then assemble_message L cfg ts ct files
         else take (nat (max_length_of cfg - 3)) (assemble_message L cfg ts ct files)
                @ ascii ''...'')"
  using assms
  by (auto simp: generate_commit_message_def limit_length_def slice_to_def Let_def ascii_def)

theorem message_length_bounded_witness:
  "3 \<le> max_length_of \<lparr>include_timestamp = Some False, max_message_length = Some 12\<rparr>
   \<and> generate_commit_message ascii_lib
        \<lparr>include_timestamp = Some False, max_message_length = Some 12\<rparr>
        [] ''modified'' [ascii ''a.py'']
      = [128221, 32, 20462, 25913, 49, 32, 20010, 25991, 20214] @ ascii ''...''"
  using message_length_bounded[of
      "\<lparr>include_timestamp = Some False, max_message_length = Some 12\<rparr>"
      ascii_lib "[]" "''modified''" "[ascii ''a.py'']"]
  by (simp add: generator_defs)

text \<open>
  The message of \<open>commit_changes\<close> in \<open>auto_commit.py\<close> is cut to the limit itself and
  the three dots are added after that: a message that is cut is 3 longer than the limit.
\<close>

lemma ac_truncate_length:
  assumes "0 \<le> max_commit_message_length cfg"
    and "int (length m) > max_commit_message_length cfg"
  shows "int (length (ac_truncate cfg m)) = max_commit_message_length cfg + 3"
  using assms by (simp add: ac_truncate_def slice_to_def ascii_def)

subsection \<open>The clock\<close>

text \<open>
  Claim C4, as stated: two calls with the same change type, files and configuration
  return the same message. With the timestamp included, which is the default, two calls
  one second apart differ.
\<close>

theorem message_depends_on_clock:
  "generate_commit_message ascii_lib \<lparr>include_timestamp = None, max_message_length = None\<rparr>
        (ascii ''2024-01-01 00:00:00'') ''modified'' [ascii ''a.py'']
     \<noteq> generate_commit_message ascii_lib
        \<lparr>include_timestamp = None, max_message_length = None\<rparr>
        (ascii ''2024-01-01 00:00:01'') ''modified'' [ascii ''a.py'']"
  by (simp add: generator_defs)

text \<open>
  Claim C4, amended. The message is a function of the change type, the files, the
  configuration and the reading of the clock; when \<open>include_timestamp\<close> is set to false
  the clock has no influence, and the same change type, files and configuration give
  the same message at any two times.
\<close>

theorem message_without_timestamp:
  assumes "include_timestamp cfg = Some False"
  shows "generate_commit_message L cfg ts1 ct files = generate_commit_message L cfg ts2 ct files"
  using assms by (simp add: generate_commit_message_def assemble_message_def)

theorem message_without_timestamp_witness:
  "include_timestamp \<lparr>include_timestamp = Some False, max_message_length = None\<rparr> = Some False
   \<and> generate_commit_message ascii_lib
        \<lparr>include_timestamp = Some False, max_message_length = None\<rparr>
        (ascii ''2024-01-01 00:00:00'') ''modified'' [ascii ''a.py'']
     = generate_commit_message ascii_lib
        \<lparr>include_timestamp = Some False, max_message_length = None\<rparr>
        (ascii ''2024-01-01 00:00:01'') ''modified'' [ascii ''a.py'']"
  using message_without_timestamp[of
      "\<lparr>include_timestamp = Some False, max_message_length = None\<rparr>"
      ascii_lib "ascii ''2024-01-01 00:00:00''" "''modified''" "[ascii ''a.py'']"
      "ascii ''2024-01-01 00:00:01''"]
  by simp

section \<open>The conflict guard\<close>

lemmas git_defs =
  check_for_conflicts_def run_def demo_git_def ok_def refused_def start_def strip_def
  isspace_def check_exception_def conflict_markers_def ascii_def try_resolve_def sleep_def
  handle_conflicts_def effective_retries_def ascii_lib_def ascii_upper_def

lemma marks_append: "marks (h @ h') = marks h @ marks h'"
  by (induction h rule: marks.induct) auto

subsection \<open>Unpushed commits\<close>

text \<open>
  Claim C3, as stated: when the fetch succeeds and the local branch has commits that are
  not pushed, the verdict has no conflict. In the repository for concrete runs the
  fetch succeeds and \<open>git log origin/HEAD..HEAD\<close> lists a commit; the first component
  of the verdict, which \<open>handle_conflicts\<close> reads as \<open>has_conflicts\<close>, is \<open>True\<close>.
\<close>

theorem unpushed_commits_counterexample:
  "fst (fst (check_for_conflicts (demo_git (ascii ''main'' @ [10])) None start)) \<noteq> False"
  by (simp add: git_defs)

text \<open>
  Claim C3, amended. When the fetch succeeds, the branch query returns and the log of
  unpushed commits succeeds with a non-blank output, \<open>check_for_conflicts\<close> returns
  the verdict \<open>True\<close> with a reason that names the current branch and its unpushed
  commits, for every target branch.
\<close>

theorem unpushed_commits_verdict:
  assumes "git (world s) Fetch = (Inr fetch_result, w1)" and "returncode fetch_result = 0"
    and "git w1 BranchShowCurrent = (Inr branch_result, w2)"
    and "git w2 LogUnpushed = (Inr unpushed_result, w3)"
    and "returncode unpushed_result = 0" and "strip (stdout unpushed_result) \<noteq> []"
  shows "fst (check_for_conflicts git target s)
     = (True, unpushed_prefix @ strip (stdout branch_result) @ unpushed_suffix)"
  using assms by (simp add: check_for_conflicts_def run_def Let_def)

theorem unpushed_commits_verdict_witness:
  "fst (check_for_conflicts (demo_git (ascii ''main'' @ [10])) None start)
     = (True, unpushed_prefix @ ascii ''main'' @ unpushed_suffix)"
  using unpushed_commits_verdict[of "demo_git (ascii ''main'' @ [10])" start
     "\<lparr>returncode = 0, stdout = [], stderr = []\<rparr>" "()"
     "\<lparr>returncode = 0, stdout = ascii ''main'' @ [10], stderr = []\<rparr>" "()"
     "\<lparr>returncode = 0, stdout = ascii ''1a2b3c4 wip'' @ [10], stderr = []\<rparr>" "()" None]
  by (simp add: demo_git_def ok_def start_def strip_def isspace_def ascii_def)

subsection \<open>The retry loop\<close>

text \<open>The conflict check runs one fetch and neither pulls nor sleeps.\<close>

lemma check_marks: "marks (history (snd (check_for_conflicts git t s))) = marks (history s)"
  by (simp add: check_for_conflicts_def run_def Let_def check_exception_def marks_append
      split: prod.splits sum.splits)

lemma check_fetches:
  "times_run Fetch (history (snd (check_for_conflicts git t s)))
     = times_run Fetch (history s) + 1"
  by (simp add: check_for_conflicts_def run_def Let_def check_exception_def times_run_def
      split: prod.splits sum.splits)

text \<open>One round against a conflict that stays: it fails, with the error text of the pull.\<close>

lemma try_resolve_failed:
  assumes conflict: "\<forall>s. fst (fst (check_for_conflicts git None s))"
    and pull: "\<forall>w. \<exists>r. fst (git w Pull) = Inr r \<and> returncode r \<noteq> 0 \<and> stderr r = err"
    and add: "\<forall>w. \<exists>r. fst (git w AddAll) = Inr r"
    and commit: "\<forall>w. \<exists>r. fst (git w CommitNoEdit) = Inr r \<and> returncode r \<noteq> 0"
  shows "\<exists>pr s1. try_resolve L git s = (Failed pr, s1) \<and> stderr pr = err
           \<and> marks (history s1) = marks (history s) @ [Attempt]
           \<and> times_run Fetch (history s1) = times_run Fetch (history s) + 1"
proof -
  obtain reason s1 where c: "check_for_conflicts git None s = ((True, reason), s1)"
    using conflict[rule_format, of s] by (cases "check_for_conflicts git None s") auto
  have m1: "marks (history s1) = marks (history s)"
    using check_marks[of git None s] c by simp
  have f1: "times_run Fetch (history s1) = times_run Fetch (history s) + 1"
    using check_fetches[of git None s] c by simp
  obtain pr w2 where p: "git (world s1) Pull = (Inr pr, w2)" "returncode pr \<noteq> 0"
      "stderr pr = err"
    using pull[rule_format, of "world s1"] by (cases "git (world s1) Pull") auto
  obtain ra w3 where a: "git w2 AddAll = (Inr ra, w3)"
    using add[rule_format, of w2] by (cases "git w2 AddAll") auto
  obtain rc w4 where k: "git w3 CommitNoEdit = (Inr rc, w4)" "returncode rc \<noteq> 0"
    using commit[rule_format, of w3] by (cases "git w3 CommitNoEdit") auto
  show ?thesis
    using c p a k m1 f1
    by (simp add: try_resolve_def run_def marks_append times_run_def)
qed

lemma handle_loop_permanent:
  assumes conflict: "\<forall>s. fst (fst (check_for_conflicts git None s))"
    and pull: "\<forall>w. \<exists>r. fst (git w Pull) = Inr r \<and> returncode r \<noteq> 0 \<and> stderr r = err"
    and add: "\<forall>w. \<exists>r. fst (git w AddAll) = Inr r"
    and commit: "\<forall>w. \<exists>r. fst (git w CommitNoEdit) = Inr r \<and> returncode r \<noteq> 0"
    and delay: "0 \<le> retry_delay cfg"
  shows "attempt < n \<Longrightarrow> k = nat (n - attempt) - 1 \<Longrightarrow>
     \<exists>s'. handle_loop L git cfg n attempt s = (Inr (False, resolve_manually @ err), s')
        \<and> marks (history s') = marks (history s)
             @ Attempt # concat (replicate k [Wait (retry_delay cfg), Attempt])
        \<and> times_run Fetch (history s') = times_run Fetch (history s) + k + 1"
proof (induction k arbitrary: attempt s)
  case 0
  then have last: "\<not> attempt < n - 1" by simp
  obtain pr s1 where t: "try_resolve L git s = (Failed pr, s1)" "stderr pr = err"
    "marks (history s1) = marks (history s) @ [Attempt]"
    "times_run Fetch (history s1) = times_run Fetch (history s) + 1"
    using try_resolve_failed[OF conflict pull add commit, of L s] by blast
  show ?case using 0 last t by (subst handle_loop.simps) simp
next
  case (Suc k)
  then have more: "attempt < n - 1" by simp
  obtain pr s1 where t: "try_resolve L git s = (Failed pr, s1)" "stderr pr = err"
    "marks (history s1) = marks (history s) @ [Attempt]"
    "times_run Fetch (history s1) = times_run Fetch (history s) + 1"
    using try_resolve_failed[OF conflict pull add commit, of L s] by blast
  let ?s2 = "s1\<lparr>history := history s1 @ [Slept (retry_delay cfg)]\<rparr>"
  have sl: "sleep (retry_delay cfg) s1 = Inr ?s2" using delay by (simp add: sleep_def)
  have "attempt + 1 < n" "k = nat (n - (attempt + 1)) - 1" using Suc.prems by simp_all
  from Suc.IH[OF this, of ?s2] obtain s' where
    r: "handle_loop L git cfg n (attempt + 1) ?s2 = (Inr (False, resolve_manually @ err), s')"
       "marks (history s') = marks (history ?s2)
             @ Attempt # concat (replicate k [Wait (retry_delay cfg), Attempt])"
       "times_run Fetch (history s') = times_run Fetch (history ?s2) + k + 1"
    by blast
  have "handle_loop L git cfg n attempt s = handle_loop L git cfg n (attempt + 1) ?s2"
    using Suc.prems more t sl by (subst handle_loop.simps) simp
  then show ?case using r t by (simp add: marks_append times_run_def)
qed

text \<open>
  Claim C6, as stated: \<open>resolve(maxRetries)\<close> makes exactly \<open>maxRetries\<close> attempts. An
  argument of 0 is falsy and is replaced by the configured \<open>max_retry_attempts\<close>: with
  3 configured, \<open>handle_conflicts(0)\<close> makes three attempts, not none.
\<close>

theorem retries_zero_counterexample:
  "marks (history (snd (handle_conflicts ascii_lib (demo_git (ascii ''main'' @ [10]))
      \<lparr>max_retry_attempts = 3, retry_delay = 2\<rparr> (Some 0) start)))
     \<noteq> []"
  by (simp add: git_defs handle_loop.simps)

text \<open>
  Claim C6, amended. Let \<open>n\<close> be the effective number of retries: the argument, or the
  configured \<open>max_retry_attempts\<close> when the argument is absent or 0. When \<open>n\<close> is at
  least 1, the retry delay is not negative, and the conflict stays (every check reports
  a conflict, every pull fails with the error text \<open>err\<close>, the merge commit of the
  automatic resolution never succeeds), \<open>handle_conflicts\<close> returns: its result is
  failure with the text of the pull's error, it has made exactly \<open>n\<close> attempts (\<open>n\<close>
  checks, \<open>n\<close> pulls), and between two consecutive attempts it has slept once for
  \<open>retry_delay\<close>.
\<close>

theorem bounded_retry:
  assumes "\<forall>s. fst (fst (check_for_conflicts git None s))"
    and "\<forall>w. \<exists>r. fst (git w Pull) = Inr r \<and> returncode r \<noteq> 0 \<and> stderr r = err"
    and "\<forall>w. \<exists>r. fst (git w AddAll) = Inr r"
    and "\<forall>w. \<exists>r. fst (git w CommitNoEdit) = Inr r \<and> returncode r \<noteq> 0"
    and "0 \<le> retry_delay cfg"
    and "1 \<le> effective_retries cfg max_retries"
  shows "\<exists>s'. handle_conflicts L git cfg max_retries s
          = (Inr (False, resolve_manually @ err), s')
        \<and> marks (history s') = marks (history s)
             @ Attempt # concat (replicate (nat (effective_retries cfg max_retries) - 1)
                                   [Wait (retry_delay cfg), Attempt])
        \<and> times_run Fetch (history s')
             = times_run Fetch (history s) + nat (effective_retries cfg max_retries)"
proof -
  have "0 < effective_retries cfg max_retries" using assms(6) by simp
  from handle_loop_permanent[OF assms(1-5) this refl, of L s]
  show ?thesis using assms(6) unfolding handle_conflicts_def by auto
qed

theorem bounded_retry_witness:
  "handle_conflicts ascii_lib (demo_git (ascii ''main'' @ [10]))
      \<lparr>max_retry_attempts = 3, retry_delay = 2\<rparr> (Some 3) start
     = (Inr (False, resolve_manually @ ascii ''rejected''),
         snd (handle_conflicts ascii_lib (demo_git (ascii ''main'' @ [10]))
                \<lparr>max_retry_attempts = 3, retry_delay = 2\<rparr> (Some 3) start))
   \<and> marks (history (snd (handle_conflicts ascii_lib (demo_git (ascii ''main'' @ [10]))
                \<lparr>max_retry_attempts = 3, retry_delay = 2\<rparr> (Some 3) start)))
     = [Attempt, Wait 2, Attempt, Wait 2, Attempt]"
  using bounded_retry[of "demo_git (ascii ''main'' @ [10])" "ascii ''rejected''"
      "\<lparr>max_retry_attempts = 3, retry_delay = 2\<rparr>" "Some 3" ascii_lib start]
  by (auto simp add: git_defs numeral_3_eq_3)

section \<open>The queue of pending changes\<close>

lemma record_all_pending:
  "pending_changes (record_all cfg sp evs a)
     = pending_changes a @ map entry_of (qualifying sp evs)"
proof (induction evs arbitrary: a)
  case Nil
  then show ?case by (simp add: record_all_def qualifying_def)
next
  case (Cons e evs)
  obtain t ev where e: "e = (t, ev)" by (cases e)
  have "record_all cfg sp (e # evs) a
      = record_all cfg sp evs (fst (on_any_event cfg (sp t) t ev a))"
    by (simp add: record_all_def e)
  then show ?case using Cons.IH[of "fst (on_any_event cfg (sp t) t ev a)"]
    by (simp add: e on_any_event_def qualifying_def entry_of_def)
qed

lemma latest_map:
  "latest p (map entry_of es)
     = (case rev (filter (\<lambda>te. src_path (snd te) = p) es) of [] \<Rightarrow> None
        | te # _ \<Rightarrow> Some (kind (snd te)))"
proof -
  have "filter (\<lambda>c. file_path c = p) (map entry_of es)
      = map entry_of (filter (\<lambda>te. src_path (snd te) = p) es)"
    by (simp add: filter_map comp_def entry_of_def)
  then show ?thesis
    by (simp add: latest_def rev_map entry_of_def split: list.splits)
qed

text \<open>
  Claim C5, as stated: after any sequence of recorded events the pending set has
  exactly one entry per distinct path. \<open>pending_changes\<close> is a list to which every
  event is appended: two events for \<open>a.py\<close> leave two entries with that path.
\<close>

theorem pending_duplicates_counterexample:
  "\<not> distinct (map file_path (pending_changes (record_all demo_config accept_all
        [(0, edit (ascii ''a.py'')), (3, edit (ascii ''a.py''))] (fresh ()))))"
  by (simp add: record_all_def on_any_event_def edit_def fresh_def demo_config_def
      accept_all_def)

text \<open>
  Claim C5, amended. After a sequence of events with no flush in between, the pending
  list of a fresh object holds one entry for every event that was accepted, in the
  order of arrival, so a path that was recorded several times has several entries; the
  last entry for a path has the kind of the most recent event recorded for it.
\<close>

theorem pending_is_event_log:
  "pending_changes (record_all cfg should_process evs (fresh w))
     = map entry_of (qualifying should_process evs)
   \<and> latest p (pending_changes (record_all cfg should_process evs (fresh w)))
     = (case rev (filter (\<lambda>te. src_path (snd te) = p) (qualifying should_process evs)) of
          [] \<Rightarrow> None | te # _ \<Rightarrow> Some (kind (snd te)))"
  using record_all_pending[of cfg should_process evs "fresh w"]
    latest_map[of p "qualifying should_process evs"]
  by (simp add: fresh_def)

section \<open>The timers\<close>

lemmas flush_defs =
  process_changes_def begin_flush_def end_flush_def flush_body_def get_git_status_def
  commit_and_push_def has_changes_def primary_change_type_def parse_status_line_def
  status_lines_def demo_config_def fresh_def

lemmas session_defs =
  enhanced_session_def session_def deliver_def advance_def on_any_event_def edit_def
  times_run_def

lemma fire_all_fired: "fired (fire_all cb ds m) = fired m @ ds"
  by (induction ds arbitrary: m) auto

lemma fire_all_timers: "timers (fire_all cb ds m) = timers m"
  by (induction ds arbitrary: m) auto

lemma advance_count:
  "length (fired (advance cb t m)) + length (timers (advance cb t m))
     = length (fired m) + length (timers m)"
  using sum_length_filter_compl[of "\<lambda>d. d \<le> t" "timers m"]
  by (simp add: advance_def fire_all_fired fire_all_timers)

lemma deliver_count:
  "length (fired (deliver on_event t ev m)) + length (timers (deliver on_event t ev m))
     = length (fired m) + length (timers m)
       + (if snd (on_event t ev (handler m)) = None then 0 else 1)"
  by (auto simp: deliver_def split: prod.splits option.splits)

text \<open>Every timer that is started is counted, fired or not, and none is removed.\<close>

lemma session_loop_count:
  assumes "\<forall>t ev h. (snd (on_event t ev h) \<noteq> None) = q (t, ev)"
  shows "length (fired (foldl (\<lambda>m (t, ev). deliver on_event t ev (advance cb t m)) m evs))
       + length (timers (foldl (\<lambda>m (t, ev). deliver on_event t ev (advance cb t m)) m evs))
     = length (fired m) + length (timers m) + length (filter q evs)"
proof (induction evs arbitrary: m)
  case Nil
  then show ?case by simp
next
  case (Cons e evs)
  obtain t ev where e: "e = (t, ev)" by (cases e)
  have "length (fired (deliver on_event t ev (advance cb t m)))
      + length (timers (deliver on_event t ev (advance cb t m)))
      = length (fired m) + length (timers m) + (if q (t, ev) then 1 else 0)"
    using deliver_count[of on_event t ev "advance cb t m"] advance_count[of cb t m]
      assms[rule_format, of t ev "handler (advance cb t m)"]
    by auto
  then show ?case using Cons.IH[of "deliver on_event t ev (advance cb t m)"] e by simp
qed

lemma session_count:
  assumes "\<forall>t ev h. (snd (on_event t ev h) \<noteq> None) = q (t, ev)"
  shows "length (fired (session on_event cb evs h)) = length (filter q evs)
       \<and> timers (session on_event cb evs h) = []"
  using session_loop_count[where on_event = on_event and q = q and cb = cb
      and m = "\<lparr>handler = h, timers = [], fired = []\<rparr>" and evs = evs] assms
  by (simp add: session_def Let_def fire_all_fired fire_all_timers)

text \<open>
  Claim C1, as stated: a run of events, each less than the commit delay after the one
  before, gives exactly one flush attempt. Three edits of \<open>a.py\<close> at the times 0, 3
  and 6 with a delay of 5 start three timers: \<open>process_changes\<close> is called three times,
  at 5, 8 and 11, and the calls at 5 and at 8 both find changes pending, pass the entry
  test and go on to stage and commit.
\<close>

theorem debounce_counterexample:
  "fired (enhanced_session ascii_lib (demo_git (ascii ''main'' @ [10])) demo_config
      accept_all no_clock
      [(0, edit (ascii ''a.py'')), (3, edit (ascii ''a.py'')), (6, edit (ascii ''a.py''))]
      (fresh ())) = [5, 8, 11]
   \<and> times_run AddAll (history (procs (handler
       (enhanced_session ascii_lib (demo_git (ascii ''main'' @ [10])) demo_config
         accept_all no_clock
         [(0, edit (ascii ''a.py'')), (3, edit (ascii ''a.py'')), (6, edit (ascii ''a.py''))]
         (fresh ()))))) = 2"
  by (simp add: session_defs flush_defs git_defs generator_defs accept_all_def no_clock_def)

text \<open>
  Claim C1, amended. Every accepted event starts a timer of its own and no timer is
  cancelled or reset: in both scripts a session with \<open>N\<close> accepted events calls the
  flush routine (\<open>process_changes\<close>, \<open>commit_changes\<close>) exactly \<open>N\<close> times, whatever the
  spacing of the events, and no timer is left when the session ends.
\<close>

theorem one_timer_per_event:
  "length (fired (enhanced_session L git cfg should_process clock evs a))
     = length (qualifying should_process evs)
   \<and> timers (enhanced_session L git cfg should_process clock evs a) = []
   \<and> length (fired (auto_commit_session git' cfg' should_include clock evs s))
     = length (qualifying (\<lambda>t. should_include) evs)
   \<and> timers (auto_commit_session git' cfg' should_include clock evs s) = []"
proof -
  have 1: "\<forall>t ev (h :: 'a automation).
      (snd (on_any_event cfg (should_process t) t ev h) \<noteq> None)
      = (\<lambda>(t, ev). \<not> is_directory ev \<and> should_process t (src_path ev)) (t, ev)"
    by (simp add: on_any_event_def)
  have 2: "\<forall>(t :: int) ev (h :: 'b sys).
      (snd (ac_on_any_event cfg' should_include ev h) \<noteq> None)
      = (\<lambda>(t, ev). \<not> is_directory ev \<and> should_include (src_path ev)) (t, ev)"
    by (simp add: ac_on_any_event_def)
  show ?thesis
    using session_count[where on_event = "\<lambda>t ev. on_any_event cfg (should_process t) t ev"
        and q = "\<lambda>(t, ev). \<not> is_directory ev \<and> should_process t (src_path ev)"
        and cb = "\<lambda>t a. snd (process_changes L git cfg (clock t) a)" and evs = evs and h = a]
      session_count[where on_event = "\<lambda>t ev. ac_on_any_event cfg' should_include ev"
        and q = "\<lambda>(t, ev). \<not> is_directory ev \<and> should_include (src_path ev)"
        and cb = "\<lambda>t s. commit_changes git' cfg' (clock t) s" and evs = evs and h = s]
      1 2
    by (simp add: enhanced_session_def auto_commit_session_def qualifying_def)
qed

section \<open>The flush\<close>

subsection \<open>Add, commit, push\<close>







text \<open>The same order in \<open>commit_changes\<close> of \<open>auto_commit.py\<close>, which always pushes.\<close>

lemma ac_commit_and_push_shape:
  "\<exists>tail. history (ac_commit_and_push git m s) = history s @ tail
     \<and> ((\<exists>r. tail = [Ran AddAll r] \<and> \<not> succeeded r)
        \<or> (\<exists>ra r. tail = [Ran AddAll ra, Ran (CommitM m) r] \<and> succeeded ra \<and> \<not> succeeded r)
        \<or> (\<exists>ra rc rp. tail = [Ran AddAll ra, Ran (CommitM m) rc, Ran Push rp]
              \<and> succeeded ra \<and> succeeded rc))"
proof -
  obtain ra w1 where add: "git (world s) AddAll = (ra, w1)"
    by (cases "git (world s) AddAll")
  obtain rc w2 where com: "git w1 (CommitM m) = (rc, w2)"
    by (cases "git w1 (CommitM m)")
  obtain rp w3 where push: "git w2 Push = (rp, w3)"
    by (cases "git w2 Push")
  show ?thesis
    using add com push
    by (cases ra; cases rc; auto simp: ac_commit_and_push_def run_def succeeded_def)
qed

subsection \<open>One flush at a time\<close>

lemma commit_and_push_marker:
  "processing_changes (snd (commit_and_push git cfg m b a)) = processing_changes a"
  by (simp add: commit_and_push_def split: prod.splits sum.splits)

lemma flush_body_marker:
  "processing_changes (snd (flush_body L git cfg now a)) = processing_changes a"
  by (simp add: flush_body_def Let_def commit_and_push_marker split: prod.splits sum.splits)

lemma on_any_event_marker:
  "processing_changes (fst (on_any_event cfg sp t ev a)) = processing_changes a"
  by (simp add: on_any_event_def)

lemma step_exclusive:
  assumes "exclusive c"
  shows "exclusive (step L git cfg sp act c)"
proof (cases act)
  case (Notify t ev)
  then show ?thesis using assms by (simp add: step_def exclusive_def on_any_event_marker)
next
  case (Enter i)
  then show ?thesis using assms
    by (auto simp: step_def exclusive_def begin_flush_def split: if_splits)
next
  case (Work i now)
  show ?thesis
  proof (cases "i \<in> set (in_try c)")
    case True
    then have "in_try c = [i]" "in_finally c = []"
      using assms by (cases "in_try c"; cases "in_finally c"; auto simp: exclusive_def)+
    then show ?thesis using assms Work by (simp add: step_def exclusive_def flush_body_marker)
  next
    case False
    then show ?thesis using assms Work by (simp add: step_def)
  qed
next
  case (Leave i)
  show ?thesis
  proof (cases "i \<in> set (in_finally c)")
    case True
    then have "in_finally c = [i]" "in_try c = []"
      using assms by (cases "in_try c"; cases "in_finally c"; auto simp: exclusive_def)+
    then show ?thesis using assms Leave by (simp add: step_def exclusive_def end_flush_def)
  next
    case False
    then show ?thesis using assms Leave by (simp add: step_def)
  qed
qed

lemma execute_exclusive:
  "exclusive c \<Longrightarrow> exclusive (execute L git cfg sp acts c)"
  unfolding execute_def
  by (induction acts arbitrary: c) (auto simp: step_exclusive)

lemma idle_exclusive: "exclusive (idle w)"
  by (simp add: exclusive_def idle_def fresh_def)

lemma process_changes_marker:
  "\<not> processing_changes a \<Longrightarrow> \<not> processing_changes (snd (process_changes L git cfg now a))"
  by (auto simp: process_changes_def begin_flush_def end_flush_def split: prod.splits)

text \<open>
  Claim C7. In every state \<open>c\<close> that the threads can reach from a fresh object, at most
  one thread is inside the flush, and the marker is set exactly then. While a thread is
  inside, a call of \<open>process_changes\<close> returns \<open>False\<close> and changes nothing, and another
  thread that tries to enter stays outside. When the thread inside runs its \<open>finally\<close>
  clause the marker is cleared and nobody is inside, so a thread that then enters with
  changes pending gets in. A call of \<open>process_changes\<close> that starts with the marker
  cleared ends with the marker cleared, on every path.
\<close>

theorem flush_mutual_exclusion:
  assumes "c = execute L git cfg sp acts (idle w)"
  shows "length (in_try c @ in_finally c) \<le> 1
    \<and> processing_changes (shared c) = (in_try c @ in_finally c \<noteq> [])
    \<and> (in_try c @ in_finally c \<noteq> [] \<longrightarrow>
          process_changes L git cfg now (shared c) = (False, shared c)
          \<and> step L git cfg sp (Enter i) c = c)
    \<and> (i \<in> set (in_finally c) \<longrightarrow>
          \<not> processing_changes (shared (step L git cfg sp (Leave i) c))
          \<and> in_try (step L git cfg sp (Leave i) c)
              @ in_finally (step L git cfg sp (Leave i) c) = []
          \<and> (pending_changes (shared c) \<noteq> [] \<longrightarrow>
               in_try (step L git cfg sp (Enter j) (step L git cfg sp (Leave i) c)) = [j]))
    \<and> (\<not> processing_changes a \<longrightarrow>
          \<not> processing_changes (snd (process_changes L git cfg now a)))"
proof -
  have e: "exclusive c" using assms execute_exclusive[OF idle_exclusive] by simp
  have 1: "length (in_try c @ in_finally c) \<le> 1"
    and 2: "processing_changes (shared c) = (in_try c @ in_finally c \<noteq> [])"
    using e by (simp_all add: exclusive_def)
  have 3: "process_changes L git cfg now (shared c) = (False, shared c)
          \<and> step L git cfg sp (Enter i) c = c" if "in_try c @ in_finally c \<noteq> []"
    using that 2 by (auto simp: process_changes_def begin_flush_def step_def)
  have 4: "\<not> processing_changes (shared (step L git cfg sp (Leave i) c))
          \<and> in_try (step L git cfg sp (Leave i) c)
              @ in_finally (step L git cfg sp (Leave i) c) = []
          \<and> (pending_changes (shared c) \<noteq> [] \<longrightarrow>
               in_try (step L git cfg sp (Enter j) (step L git cfg sp (Leave i) c)) = [j])"
    if "i \<in> set (in_finally c)"
  proof -
    have l: "in_finally c = [i]" "in_try c = []"
      using that 1 by (cases "in_try c"; cases "in_finally c"; auto)+
    show ?thesis using l by (simp add: step_def end_flush_def begin_flush_def)
  qed
  show ?thesis using 1 2 3 4 process_changes_marker[of a L git cfg now] by blast
qed

text \<open>
  An edit arrives, thread 1 enters, thread 2 tries to: thread 1 alone is inside, and
  a call of \<open>process_changes\<close> in that state returns \<open>False\<close> and changes nothing.
\<close>

theorem flush_mutual_exclusion_witness:
  "in_try (execute ascii_lib (demo_git (ascii ''main'' @ [10])) demo_config accept_all
      [Notify 0 (edit (ascii ''a.py'')), Enter 1, Enter 2] (idle ())) = [1]
   \<and> process_changes ascii_lib (demo_git (ascii ''main'' @ [10])) demo_config []
        (shared (execute ascii_lib (demo_git (ascii ''main'' @ [10])) demo_config
           accept_all [Notify 0 (edit (ascii ''a.py'')), Enter 1, Enter 2] (idle ())))
      = (False, shared (execute ascii_lib (demo_git (ascii ''main'' @ [10])) demo_config
           accept_all [Notify 0 (edit (ascii ''a.py'')), Enter 1, Enter 2] (idle ())))"
  using flush_mutual_exclusion[where
      c = "execute ascii_lib (demo_git (ascii ''main'' @ [10])) demo_config accept_all
         [Notify 0 (edit (ascii ''a.py'')), Enter 1, Enter 2] (idle ())"
      and L = ascii_lib and git = "demo_git (ascii ''main'' @ [10])" and cfg = demo_config
      and sp = accept_all
      and acts = "[Notify 0 (edit (ascii ''a.py'')), Enter 1, Enter 2]" and w = "()"
      and now = "[]" and i = 2 and j = 3 and a = "fresh ()"]
  by (simp add: execute_def step_def idle_def fresh_def begin_flush_def on_any_event_def
      edit_def demo_config_def accept_all_def)

section \<open>The branch check of \<open>auto_commit.py\<close>\<close>

lemmas ac_defs =
  commit_changes_def ac_get_git_status_def ac_commit_and_push_def ac_truncate_def
  branch_rejected_def truthy_def files_summary_def status_lines_def demo_ac_config_def
  default_template_def auto_commit_prefix_def

lemma strip_head:
  assumes "strip s \<noteq> []"
  shows "\<not> isspace (hd (strip s))"
proof -
  let ?y = "dropWhile isspace s"
  have y: "?y \<noteq> []" using assms by (metis strip_def dropWhile.simps(1) rev.simps(1))
  then have hy: "\<not> isspace (hd ?y)" by (simp add: hd_dropWhile)
  have "rev ?y = takeWhile isspace (rev ?y) @ dropWhile isspace (rev ?y)" by simp
  then have "?y = rev (dropWhile isspace (rev ?y)) @ rev (takeWhile isspace (rev ?y))"
    by (metis rev_append rev_rev_ident)
  then have "?y = strip s @ rev (takeWhile isspace (rev ?y))" by (simp add: strip_def)
  then have "hd ?y = hd (strip s)" using assms by (metis hd_append2)
  then show ?thesis using hy by simp
qed

lemma split_on_first:
  "c \<noteq> sep \<Longrightarrow> \<exists>x xs. split_on sep (c # s) = (c # x) # xs"
  by (cases "split_on sep s") auto

text \<open>A status output that is not blank has a line: \<open>files_count\<close> is not 0.\<close>

lemma lines_nonempty:
  assumes "strip s \<noteq> []"
  shows "status_lines s \<noteq> []"
proof -
  obtain c r where cr: "strip s = c # r" using assms by (cases "strip s") auto
  then have "\<not> isspace c" using strip_head[OF assms] by simp
  then have "c \<noteq> 10" by (auto simp: isspace_def)
  then obtain x xs where "split_on 10 (c # r) = (c # x) # xs" using split_on_first by blast
  then show ?thesis using cr by (simp add: status_lines_def)
qed

text \<open>
  Claim C10. The branch check is enabled, the status query succeeds and shows changes,
  and the branch query fails or prints a blank name. Then, for every list of allowed
  branches, \<open>commit_changes\<close> does not stop at the branch check: it runs the add, and
  when the add and the commit succeed it runs the commit and the push.
\<close>

theorem empty_branch_skips_allow_list:
  assumes "enable_branch_check cfg"
    and "git (world s) StatusPorcelain = (Inr status_result, w1)"
    and "returncode status_result = 0" and "strip (stdout status_result) \<noteq> []"
    and "git w1 BranchShowCurrent = (Inr branch_result, w2)"
    and "returncode branch_result \<noteq> 0 \<or> strip (stdout branch_result) = []"
    and "commit_message_template cfg now (length (status_lines (stdout status_result)))
           (files_summary (map (drop 3) (status_lines (stdout status_result)))) = Inr message"
    and "git w2 AddAll = (Inr add_result, w3)" and "returncode add_result = 0"
    and "git w3 (CommitM (ac_truncate cfg message)) = (Inr commit_result, w4)"
    and "returncode commit_result = 0"
    and "git w4 Push = (push_result, w5)"
  shows "commit_changes git cfg now s =
     \<lparr>world = w5, history = history s @
        [Ran StatusPorcelain (Inr status_result), Ran BranchShowCurrent (Inr branch_result),
         Ran AddAll (Inr add_result),
         Ran (CommitM (ac_truncate cfg message)) (Inr commit_result),
         Ran Push push_result]\<rparr>"
proof -
  let ?lines = "status_lines (stdout status_result)"
  have ne: "?lines \<noteq> []" using lines_nonempty[OF assms(4)] .
  let ?s2 = "\<lparr>world = w2, history = history s @
        [Ran StatusPorcelain (Inr status_result), Ran BranchShowCurrent (Inr branch_result)]\<rparr>"
  let ?st = "\<lparr>changed_files = map (drop 3) ?lines,
       ac_current_branch = (if returncode branch_result = 0
          then Some (strip (stdout branch_result)) else None),
       ac_has_changes = (length (strip (stdout status_result)) > 0)\<rparr>"
  have st: "ac_get_git_status git s = (Inr ?st, ?s2)"
    using assms(2,3,5) by (simp add: ac_get_git_status_def run_def)
  have nr: "\<not> branch_rejected cfg ?st"
    using assms(6) by (auto simp: branch_rejected_def truthy_def)
  have hc: "ac_has_changes ?st" using assms(4) by simp
  have cp: "ac_commit_and_push git (ac_truncate cfg message) ?s2 =
     \<lparr>world = w5, history = history s @
        [Ran StatusPorcelain (Inr status_result), Ran BranchShowCurrent (Inr branch_result),
         Ran AddAll (Inr add_result),
         Ran (CommitM (ac_truncate cfg message)) (Inr commit_result),
         Ran Push push_result]\<rparr>"
    using assms(8-12) by (simp add: ac_commit_and_push_def run_def)
  show ?thesis
    unfolding commit_changes_def st
    using nr hc ne assms(7) cp by (simp add: Let_def)
qed

text \<open>A detached head: the branch query prints an empty line, and the commit is pushed.\<close>

theorem empty_branch_skips_allow_list_witness:
  "commit_changes (demo_git [10]) demo_ac_config (ascii ''2024-01-01 00:00:00'') start =
     \<lparr>world = (), history =
        [Ran StatusPorcelain (ok (ascii ''M  a.py'' @ [10])),
         Ran BranchShowCurrent (ok [10]),
         Ran AddAll (ok []),
         Ran (CommitM (auto_commit_prefix @ ascii ''2024-01-01 00:00:00 - 1'' @ files_suffix))
           (ok []),
         Ran Push (refused (ascii ''rejected''))]\<rparr>"
  using empty_branch_skips_allow_list[where git = "demo_git [10]" and cfg = demo_ac_config
      and s = start and now = "ascii ''2024-01-01 00:00:00''"
      and status_result = "\<lparr>returncode = 0, stdout = ascii ''M  a.py'' @ [10], stderr = []\<rparr>"
      and branch_result = "\<lparr>returncode = 0, stdout = [10], stderr = []\<rparr>"
      and message = "auto_commit_prefix @ ascii ''2024-01-01 00:00:00 - 1'' @ files_suffix"
      and add_result = "\<lparr>returncode = 0, stdout = [], stderr = []\<rparr>"
      and commit_result = "\<lparr>returncode = 0, stdout = [], stderr = []\<rparr>"
      and push_result = "refused (ascii ''rejected'')"
      and ?w1.0 = "()" and ?w2.0 = "()" and ?w3.0 = "()" and ?w4.0 = "()" and ?w5.0 = "()"]
  by (simp add: demo_git_def ok_def refused_def start_def strip_def isspace_def ascii_def
      demo_ac_config_def default_template_def ac_truncate_def status_lines_def
      files_summary_def str_of_nat.simps auto_commit_prefix_def files_suffix_def)

end
